theory Spec2Isabelle
  imports Complex_Main
begin

section \<open>ECMAScript numbers and number formatting\<close>

text \<open>
  The breaker computes its failure rates with the division and multiplication of
  ECMAScript numbers (IEEE 754 binary64, round to nearest, ties to even) and prints them
  with \<^verbatim>\<open>Number.prototype.toFixed(1)\<close>. A finite number is modelled by the rational
  it denotes; \<open>fl\<close> rounds a rational to the nearest binary64 value (53 bit significand,
  gradual underflow below \<open>2^-1022\<close>). Overflow to infinity is outside the model: the
  only numbers computed are rates in \<open>[0, 1]\<close> and percentages in \<open>[0, 100]\<close>.
  Counters are natural numbers; they agree with the ECMAScript counters below \<open>2^53\<close>.
\<close>

text \<open>The number of binary digits of a positive integer.\<close>

function bitlen :: "int \<Rightarrow> nat" where
  "bitlen n = (if n \<le> 0 then 0 else Suc (bitlen (n div 2)))"
  by pat_completeness auto
termination
  by (relation "measure nat") auto

declare bitlen.simps [simp del]

definition pow2 :: "int \<Rightarrow> rat" where
  "pow2 e = (if 0 \<le> e then 2 ^ nat e else 1 / 2 ^ nat (- e))"

text \<open>\<open>ilog2 x\<close> is the exponent \<open>e\<close> with \<open>2^e \<le> x < 2^(e+1)\<close>, for \<open>0 < x\<close>.\<close>

definition ilog2 :: "rat \<Rightarrow> int" where
  "ilog2 x = (case quotient_of x of (p, q) \<Rightarrow>
     (let e0 = int (bitlen p) - int (bitlen q)
      in if pow2 e0 \<le> x then e0 else e0 - 1))"

definition round_ties_even :: "rat \<Rightarrow> int" where
  "round_ties_even x = (let n = \<lfloor>x\<rfloor>; r = x - of_int n
     in if r < 1 / 2 then n else if 1 / 2 < r then n + 1 else if even n then n else n + 1)"

definition fl :: "rat \<Rightarrow> rat" where
  "fl x = (if x = 0 then 0
     else (let u = pow2 (max (ilog2 \<bar>x\<bar> - 52) (- 1074))
           in of_int (round_ties_even (x / u)) * u))"

definition js_div :: "rat \<Rightarrow> rat \<Rightarrow> rat" where
  "js_div x y = fl (x / y)"

definition js_mul :: "rat \<Rightarrow> rat \<Rightarrow> rat" where
  "js_mul x y = fl (x * y)"

definition digit_char :: "nat \<Rightarrow> char" where
  "digit_char d = ''0123456789'' ! d"

fun show_nat :: "nat \<Rightarrow> string" where
  "show_nat n = (if n < 10 then [digit_char n] else show_nat (n div 10) @ [digit_char (n mod 10)])"

declare show_nat.simps [simp del]

text \<open>
  \<^verbatim>\<open>x.toFixed(1)\<close> for a finite \<open>x\<close> below \<open>10^21\<close>: the integer \<open>n\<close> with \<open>n / 10\<close>
  closest to \<open>x\<close>, the larger one on a tie, printed with one digit after the point.
\<close>

definition toFixed1 :: "rat \<Rightarrow> string" where
  "toFixed1 x = (let a = \<bar>x\<bar>; n = nat \<lfloor>a * 10 + 1 / 2\<rfloor>
     in (if x < 0 then ''-'' else '''') @ show_nat (n div 10) @ ''.'' @ [digit_char (n mod 10)])"

section \<open>The circuit breaker (circuitBreaker.js)\<close>

datatype cb_state = CLOSED | OPEN | HALF_OPEN

text \<open>
  The options of the constructor; they are never assigned again. The counts are natural
  numbers and the durations whole milliseconds; the rate threshold is the rational its
  binary64 value denotes.
\<close>

record config =
  name :: string
  requestTimeout :: int
  windowSize :: nat
  failureRateThreshold :: rat
  consecutiveFailureThreshold :: nat
  openStateDuration :: int
  halfOpenMaxTrials :: nat

definition default_config :: "string \<Rightarrow> config" where
  "default_config n = \<lparr> name = n, requestTimeout = 2000, windowSize = 10,
     failureRateThreshold = 1 / 2, consecutiveFailureThreshold = 5,
     openStateDuration = 30000, halfOpenMaxTrials = 3 \<rparr>"

text \<open>The mutable fields of a breaker; \<open>openedAt = None\<close> is the source's \<^verbatim>\<open>null\<close>.\<close>

record breaker =
  state :: cb_state
  window :: "bool list"
  consecutiveFailures :: nat
  openedAt :: "int option"
  halfOpenTrials :: nat
  halfOpenSuccesses :: nat
  totalSuccess :: nat
  totalFailure :: nat

definition new_breaker :: breaker where
  "new_breaker = \<lparr> state = CLOSED, window = [], consecutiveFailures = 0, openedAt = None,
     halfOpenTrials = 0, halfOpenSuccesses = 0, totalSuccess = 0, totalFailure = 0 \<rparr>"

text \<open>
  Errors are values. \<open>CircuitOpenError n s\<close> is the rejection of breaker \<open>n\<close> in state
  \<open>s\<close>; the others are what a downstream call or the pipeline's own property accesses
  can throw.
\<close>

datatype js_error =
    CircuitOpenError string cb_state
  | TimeoutError
  | RequestError string
  | TypeError

text \<open>
  \<^verbatim>\<open>_transition(newState)\<close>; \<open>now\<close> is the value \<^verbatim>\<open>Date.now()\<close> returns there.
\<close>

definition transition :: "int \<Rightarrow> cb_state \<Rightarrow> breaker \<Rightarrow> breaker" where
  "transition now newState b =
     (case newState of
        OPEN \<Rightarrow> b\<lparr> state := OPEN, openedAt := Some now,
                    halfOpenTrials := 0, halfOpenSuccesses := 0 \<rparr>
      | HALF_OPEN \<Rightarrow> b\<lparr> state := HALF_OPEN, openedAt := None,
                    halfOpenTrials := 0, halfOpenSuccesses := 0 \<rparr>
      | CLOSED \<Rightarrow> b\<lparr> state := CLOSED, openedAt := None,
                    halfOpenTrials := 0, halfOpenSuccesses := 0,
                    consecutiveFailures := 0, window := [] \<rparr>)"

text \<open>\<^verbatim>\<open>_maybeTransitionFromOpen()\<close>.\<close>

definition maybeTransitionFromOpen :: "config \<Rightarrow> int \<Rightarrow> breaker \<Rightarrow> breaker" where
  "maybeTransitionFromOpen cfg now b =
     (if state b = OPEN \<and> openedAt b \<noteq> None
      then (let elapsed = now - the (openedAt b)
            in if openStateDuration cfg \<le> elapsed then transition now HALF_OPEN b else b)
      else b)"

text \<open>\<^verbatim>\<open>_recordResult(success)\<close>: push, then drop the oldest entry when over capacity.\<close>

definition recordResult :: "config \<Rightarrow> bool \<Rightarrow> breaker \<Rightarrow> breaker" where
  "recordResult cfg success b =
     (let w = window b @ [success]
      in b\<lparr> window := (if windowSize cfg < length w then tl w else w) \<rparr>)"

text \<open>\<^verbatim>\<open>_getFailureRate()\<close>.\<close>

definition failures :: "bool list \<Rightarrow> nat" where
  "failures w = length (filter (\<lambda>r. \<not> r) w)"

definition getFailureRate :: "breaker \<Rightarrow> rat" where
  "getFailureRate b =
     (if length (window b) = 0 then 0
      else js_div (of_nat (failures (window b))) (of_nat (length (window b))))"

text \<open>\<^verbatim>\<open>_onSuccess()\<close>.\<close>

definition onSuccess :: "config \<Rightarrow> int \<Rightarrow> breaker \<Rightarrow> breaker" where
  "onSuccess cfg now b =
     (let b1 = recordResult cfg True
                 (b\<lparr> totalSuccess := totalSuccess b + 1, consecutiveFailures := 0 \<rparr>)
      in if state b1 = HALF_OPEN
         then (let b2 = b1\<lparr> halfOpenSuccesses := halfOpenSuccesses b1 + 1 \<rparr>
               in if halfOpenMaxTrials cfg \<le> halfOpenSuccesses b2
                  then transition now CLOSED b2 else b2)
         else b1)"

text \<open>\<^verbatim>\<open>_onFailure(err)\<close>.\<close>

definition onFailure :: "config \<Rightarrow> int \<Rightarrow> breaker \<Rightarrow> breaker" where
  "onFailure cfg now b =
     (let b1 = recordResult cfg False
                 (b\<lparr> totalFailure := totalFailure b + 1,
                     consecutiveFailures := consecutiveFailures b + 1 \<rparr>)
      in if state b1 = HALF_OPEN then transition now OPEN b1
         else if state b1 = CLOSED
         then (if consecutiveFailureThreshold cfg \<le> consecutiveFailures b1
               then transition now OPEN b1
               else if windowSize cfg \<le> length (window b1)
                       \<and> failureRateThreshold cfg \<le> getFailureRate b1
               then transition now OPEN b1
               else b1)
         else b1)"

subsection \<open>execute\<close>

text \<open>
  The world outside the breakers: the clock that \<^verbatim>\<open>Date.now()\<close> reads, and the
  downstream requests issued so far, by the name of the service asked.

  \<open>execute\<close> below runs a call from its admission to the accounting of its outcome in one
  piece; calls that overlap are the events further down.

  An operation is what \<^verbatim>\<open>execute\<close> awaits: given the time at which it is started it
  yields its outcome (a value, or the error it rejects with) and the time at which that
  outcome arrives. It stands for \<^verbatim>\<open>_withTimeout(fn, requestTimeout)\<close>: the race of
  \<^verbatim>\<open>fn\<close> against the timer is settled inside it, a \<open>TimeoutError\<close> being one of the
  errors it can yield; exactly one outcome reaches the breaker.
\<close>

record world =
  clock :: int
  invoked :: "string list"

type_synonym 'a operation = "int \<Rightarrow> (js_error + 'a) \<times> int"

definition invoke :: "string \<Rightarrow> 'a operation \<Rightarrow> world \<Rightarrow> (js_error + 'a) \<times> world" where
  "invoke service fn w =
     (case fn (clock w) of (r, t) \<Rightarrow> (r, \<lparr> clock = t, invoked = invoked w @ [service] \<rparr>))"

text \<open>
  The synchronous head of \<^verbatim>\<open>execute\<close>, up to the \<^verbatim>\<open>try\<close>: the time-driven check,
  then the admission decision. \<open>Some e\<close> is the error thrown; \<open>None\<close> admits the call.
\<close>

definition admit :: "config \<Rightarrow> int \<Rightarrow> breaker \<Rightarrow> js_error option \<times> breaker" where
  "admit cfg now b =
     (let b1 = maybeTransitionFromOpen cfg now b
      in if state b1 = OPEN then (Some (CircuitOpenError (name cfg) (state b1)), b1)
         else if state b1 = HALF_OPEN
         then (if halfOpenMaxTrials cfg \<le> halfOpenTrials b1
               then (Some (CircuitOpenError (name cfg) (state b1)), b1)
               else (None, b1\<lparr> halfOpenTrials := halfOpenTrials b1 + 1 \<rparr>))
         else (None, b1))"

text \<open>
  The \<^verbatim>\<open>try\<close> block of \<^verbatim>\<open>execute\<close>: run the operation, account its outcome at the
  time it arrives, and pass the outcome on unchanged.
\<close>

definition settle :: "config \<Rightarrow> 'a operation \<Rightarrow> breaker \<times> world
    \<Rightarrow> (js_error + 'a) \<times> breaker \<times> world" where
  "settle cfg fn s =
     (case s of (b, w) \<Rightarrow>
        (case invoke (name cfg) fn w of
           (Inr result, w') \<Rightarrow> (Inr result, onSuccess cfg (clock w') b, w')
         | (Inl err, w') \<Rightarrow> (Inl err, onFailure cfg (clock w') b, w')))"

definition execute :: "config \<Rightarrow> 'a operation \<Rightarrow> breaker \<times> world
    \<Rightarrow> (js_error + 'a) \<times> breaker \<times> world" where
  "execute cfg fn s =
     (case s of (b, w) \<Rightarrow>
        (case admit cfg (clock w) b of
           (Some e, b1) \<Rightarrow> (Inl e, b1, w)
         | (None, b1) \<Rightarrow> settle cfg fn (b1, w)))"

subsection \<open>The state getter, getMetrics and reset\<close>

definition getState :: "config \<Rightarrow> int \<Rightarrow> breaker \<Rightarrow> cb_state \<times> breaker" where
  "getState cfg now b = (let b1 = maybeTransitionFromOpen cfg now b in (state b1, b1))"

text \<open>
  The snapshot object; the fields \<^verbatim>\<open>state\<close>, \<^verbatim>\<open>consecutiveFailures\<close> and
  \<^verbatim>\<open>halfOpenTrials\<close> carry a prime, the plain names being the breaker's own fields.
\<close>

record metrics =
  state' :: cb_state
  failureRate :: string
  successfulCalls :: nat
  failedCalls :: nat
  windowFailureRate :: string
  consecutiveFailures' :: nat
  halfOpenTrials' :: string

definition percent :: "nat \<Rightarrow> nat \<Rightarrow> string" where
  "percent k n = toFixed1 (js_mul (js_div (of_nat k) (of_nat n)) 100) @ ''%''"

definition getMetrics :: "config \<Rightarrow> int \<Rightarrow> breaker \<Rightarrow> metrics \<times> breaker" where
  "getMetrics cfg now b =
     (let b1 = maybeTransitionFromOpen cfg now b;
          totalCalls = totalSuccess b1 + totalFailure b1;
          rate = (if 0 < totalCalls then percent (totalFailure b1) totalCalls else ''0.0%'')
      in (\<lparr> state' = state b1,
            failureRate = rate,
            successfulCalls = totalSuccess b1,
            failedCalls = totalFailure b1,
            windowFailureRate =
              (if 0 < length (window b1)
               then percent (failures (window b1)) (length (window b1)) else ''0.0%''),
            consecutiveFailures' = consecutiveFailures b1,
            halfOpenTrials' =
              (if state b1 = HALF_OPEN
               then show_nat (halfOpenSuccesses b1) @ ''/'' @ show_nat (halfOpenMaxTrials cfg)
               else ''N/A'') \<rparr>, b1))"

definition reset :: "int \<Rightarrow> breaker \<Rightarrow> breaker" where
  "reset now b = (transition now CLOSED b)\<lparr> totalSuccess := 0, totalFailure := 0 \<rparr>"

text \<open>
  The calls a client of one breaker can make, each at the time the clock shows when it
  is made, run one after the other.
\<close>

datatype 'a call =
    Execute int "'a operation"
  | GetMetrics int
  | GetState int
  | Reset int

fun step :: "config \<Rightarrow> 'a call \<Rightarrow> breaker \<Rightarrow> breaker" where
  "step cfg (Execute t fn) b = fst (snd (execute cfg fn (b, \<lparr> clock = t, invoked = [] \<rparr>)))"
| "step cfg (GetMetrics t) b = snd (getMetrics cfg t b)"
| "step cfg (GetState t) b = snd (getState cfg t b)"
| "step cfg (Reset t) b = reset t b"

fun run :: "config \<Rightarrow> 'a call list \<Rightarrow> breaker \<Rightarrow> breaker" where
  "run cfg [] b = b"
| "run cfg (c # cs) b = run cfg cs (step cfg c b)"

text \<open>
  Calls that overlap. \<^verbatim>\<open>execute\<close> is asynchronous: between its admission and the
  accounting of its outcome other calls of the breaker can run, each synchronous stretch
  in one piece. An event is one such stretch, at the time the clock shows: the head of an
  \<^verbatim>\<open>execute\<close>, the outcome of a call admitted earlier, or one of the synchronous
  calls. The state carries the number of admitted calls whose outcome is still to come;
  an outcome with no call in flight is not a schedule (\<open>None\<close>).
\<close>

datatype event =
    Admit int
  | Succeed int
  | Fail int
  | ReadMetrics int
  | ReadState int
  | DoReset int

fun fire :: "config \<Rightarrow> event \<Rightarrow> breaker \<times> nat \<Rightarrow> (breaker \<times> nat) option" where
  "fire cfg (Admit t) (b, n) =
     (case admit cfg t b of (None, b1) \<Rightarrow> Some (b1, n + 1) | (Some e, b1) \<Rightarrow> Some (b1, n))"
| "fire cfg (Succeed t) (b, n) = (if n = 0 then None else Some (onSuccess cfg t b, n - 1))"
| "fire cfg (Fail t) (b, n) = (if n = 0 then None else Some (onFailure cfg t b, n - 1))"
| "fire cfg (ReadMetrics t) (b, n) = Some (snd (getMetrics cfg t b), n)"
| "fire cfg (ReadState t) (b, n) = Some (snd (getState cfg t b), n)"
| "fire cfg (DoReset t) (b, n) = Some (reset t b, n)"

fun play :: "config \<Rightarrow> event list \<Rightarrow> breaker \<times> nat \<Rightarrow> (breaker \<times> nat) option" where
  "play cfg [] s = Some s"
| "play cfg (e # es) s = (case fire cfg e s of None \<Rightarrow> None | Some s' \<Rightarrow> play cfg es s')"

text \<open>The properties the data model asks of a breaker after every call.\<close>

definition invariant :: "config \<Rightarrow> breaker \<Rightarrow> bool" where
  "invariant cfg b =
     ((openedAt b \<noteq> None) = (state b = OPEN)
      \<and> halfOpenSuccesses b \<le> halfOpenTrials b
      \<and> halfOpenTrials b \<le> halfOpenMaxTrials cfg
      \<and> length (window b) \<le> windowSize cfg)"

text \<open>After admission in state \<open>HALF_OPEN\<close> the trial just counted has no outcome yet.\<close>

definition admitted :: "config \<Rightarrow> breaker \<Rightarrow> bool" where
  "admitted cfg b = (invariant cfg b \<and> state b \<noteq> OPEN
     \<and> (state b = HALF_OPEN \<longrightarrow> halfOpenSuccesses b < halfOpenTrials b))"

text \<open>The part of it that does not look at \<open>halfOpenSuccesses\<close>.\<close>

definition invariant_overlapping :: "config \<Rightarrow> breaker \<Rightarrow> bool" where
  "invariant_overlapping cfg b =
     ((openedAt b \<noteq> None) = (state b = OPEN)
      \<and> halfOpenTrials b \<le> halfOpenMaxTrials cfg
      \<and> length (window b) \<le> windowSize cfg)"

text \<open>A rate as \<^verbatim>\<open>getMetrics\<close> prints it: digits, a point, one digit, a percent sign.\<close>

definition is_digit :: "char \<Rightarrow> bool" where
  "is_digit c = (c \<in> set ''0123456789'')"

definition one_decimal_percent :: "string \<Rightarrow> bool" where
  "one_decimal_percent s =
     (case rev s of
        p # d # dot # ds \<Rightarrow>
          p = CHR ''%'' \<and> is_digit d \<and> dot = CHR ''.'' \<and> ds \<noteq> [] \<and> list_all is_digit ds
      | _ \<Rightarrow> False)"

section \<open>The recommendation pipeline (app.js)\<close>

text \<open>
  A value as \<^verbatim>\<open>JSON.parse\<close> hands it to the pipeline, with \<^verbatim>\<open>undefined\<close> for a
  property that is not there. Numbers are the integers; an object is the list of its
  properties, looked up from the left.
\<close>

datatype jsval =
    JUndefined
  | JNull
  | JBool bool
  | JNum int
  | JStr string
  | JArr "jsval list"
  | JObj "(string \<times> jsval) list"

text \<open>
  Reading a property \<^verbatim>\<open>v.k\<close>: a \<^verbatim>\<open>TypeError\<close> on \<^verbatim>\<open>null\<close> and \<^verbatim>\<open>undefined\<close>. The
  pipeline reads \<^verbatim>\<open>userId\<close>, \<^verbatim>\<open>preferences\<close>, \<^verbatim>\<open>movies\<close> and \<^verbatim>\<open>trending\<close>, none of
  which a string, number, boolean or array has of its own.
\<close>

fun getProp :: "jsval \<Rightarrow> string \<Rightarrow> js_error + jsval" where
  "getProp JUndefined k = Inl TypeError"
| "getProp JNull k = Inl TypeError"
| "getProp (JObj kvs) k = Inr (case map_of kvs k of Some v \<Rightarrow> v | None \<Rightarrow> JUndefined)"
| "getProp v k = Inr JUndefined"

text \<open>The values that \<^verbatim>\<open>||\<close> passes over.\<close>

fun truthy :: "jsval \<Rightarrow> bool" where
  "truthy JUndefined = False"
| "truthy JNull = False"
| "truthy (JBool b) = b"
| "truthy (JNum n) = (n \<noteq> 0)"
| "truthy (JStr s) = (s \<noteq> [])"
| "truthy (JArr xs) = True"
| "truthy (JObj kvs) = True"

fun js_join :: "string \<Rightarrow> string list \<Rightarrow> string" where
  "js_join sep [] = []"
| "js_join sep [x] = x"
| "js_join sep (x # y # ys) = x @ sep @ js_join sep (y # ys)"

definition show_int :: "int \<Rightarrow> string" where
  "show_int i = (if i < 0 then ''-'' @ show_nat (nat (- i)) else show_nat (nat i))"

text \<open>
  \<^verbatim>\<open>ToString\<close>, as \<^verbatim>\<open>Array.prototype.join\<close> applies it to the elements of an array:
  \<^verbatim>\<open>null\<close> and \<^verbatim>\<open>undefined\<close> elements give the empty string. Integers are printed
  in decimal, as ECMAScript does below \<open>10^21\<close>.
\<close>

fun js_toString :: "jsval \<Rightarrow> string" where
  "js_toString JUndefined = ''undefined''"
| "js_toString JNull = ''null''"
| "js_toString (JBool b) = (if b then ''true'' else ''false'')"
| "js_toString (JNum n) = show_int n"
| "js_toString (JStr s) = s"
| "js_toString (JArr xs) =
     js_join '','' (map (\<lambda>x. if x = JUndefined \<or> x = JNull then [] else js_toString x) xs)"
| "js_toString (JObj kvs) = ''[object Object]''"

text \<open>\<^verbatim>\<open>v.join(sep)\<close>: only an array has the method; on anything else the call throws.\<close>

fun array_join :: "jsval \<Rightarrow> string \<Rightarrow> js_error + string" where
  "array_join (JArr xs) sep =
     Inr (js_join sep (map (\<lambda>x. if x = JUndefined \<or> x = JNull then [] else js_toString x) xs))"
| "array_join v sep = Inl TypeError"

definition userProfileConfig :: config where
  "userProfileConfig = default_config ''user-profile-service''"

definition contentConfig :: config where
  "contentConfig = default_config ''content-service''"

definition DEFAULT_PREFERENCES :: jsval where
  "DEFAULT_PREFERENCES = JArr [JStr ''Comedy'', JStr ''Family'']"

definition DEGRADED_MESSAGE :: string where
  "DEGRADED_MESSAGE =
     ''Our recommendation service is temporarily degraded. Here are some trending movies.''"

definition UNAVAILABLE_MESSAGE :: string where
  "UNAVAILABLE_MESSAGE = ''All services are currently unavailable. Please try again shortly.''"

text \<open>
  The three downstream requests, each yielding the parsed body \<^verbatim>\<open>r.data\<close>: the user
  profile of a user id, the movies of a \<^verbatim>\<open>genres\<close> string (which the request encodes
  into its URL), and the trending list.
\<close>

record services =
  userProfileGet :: "string \<Rightarrow> jsval operation"
  contentGet :: "string \<Rightarrow> jsval operation"
  trendingGet :: "jsval operation"

text \<open>The two module-level breakers and the world.\<close>

record app =
  userProfileBreaker :: breaker
  contentBreaker :: breaker
  world :: world

text \<open>\<^verbatim>\<open>res.status(n).json(body)\<close>; \<^verbatim>\<open>res.json(body)\<close> answers 200.\<close>

record response =
  status :: nat
  body :: jsval

text \<open>
  Step 1: the user preferences \<^verbatim>\<open>{userId, preferences}\<close>, as a pair, and the fallbacks
  triggered so far.
\<close>

definition fetchUserPreferences :: "services \<Rightarrow> string \<Rightarrow> app \<Rightarrow> ((jsval \<times> jsval) \<times> string list) \<times> app" where
  "fetchUserPreferences sv userId a =
     (case execute userProfileConfig (userProfileGet sv userId) (userProfileBreaker a, world a) of
        (r, b, w) \<Rightarrow>
          (let a' = a\<lparr> userProfileBreaker := b, world := w \<rparr>;
               fallback = (((JStr userId, DEFAULT_PREFERENCES), [''user-profile-service'']), a')
           in case r of
                Inl err \<Rightarrow> fallback
              | Inr response \<Rightarrow>
                  (case getProp response ''userId'' of
                     Inl err \<Rightarrow> fallback
                   | Inr u \<Rightarrow>
                       (case getProp response ''preferences'' of
                          Inl err \<Rightarrow> fallback
                        | Inr p \<Rightarrow> (((u, p), []), a')))))"

text \<open>
  Step 2: the recommendations, \<open>None\<close> being the source's \<^verbatim>\<open>null\<close>, and the fallbacks
  triggered so far. Whatever is thrown inside the \<^verbatim>\<open>try\<close> lands in the one
  \<^verbatim>\<open>catch\<close>.
\<close>

definition fetchRecommendations :: "services \<Rightarrow> jsval \<times> jsval \<Rightarrow> string list \<Rightarrow> app
    \<Rightarrow> (jsval option \<times> string list) \<times> app" where
  "fetchRecommendations sv userPreferences fallbacksTriggered a =
     (case array_join (snd userPreferences) '','' of
        Inl err \<Rightarrow> ((None, fallbacksTriggered @ [''content-service'']), a)
      | Inr genres \<Rightarrow>
          (case execute contentConfig (contentGet sv genres) (contentBreaker a, world a) of
             (r, b, w) \<Rightarrow>
               (let a' = a\<lparr> contentBreaker := b, world := w \<rparr>;
                    fallback = ((None, fallbacksTriggered @ [''content-service'']), a')
                in case r of
                     Inl err \<Rightarrow> fallback
                   | Inr response \<Rightarrow>
                       (case getProp response ''movies'' of
                          Inl err \<Rightarrow> fallback
                        | Inr movies \<Rightarrow>
                            ((Some (if truthy movies then movies else JArr []),
                              fallbacksTriggered), a')))))"

text \<open>Step 3: the trending fallback, asked without a breaker.\<close>

definition trendingFallback :: "services \<Rightarrow> string list \<Rightarrow> app \<Rightarrow> response \<times> app" where
  "trendingFallback sv fallbacksTriggered a =
     (case invoke ''trending-service'' (trendingGet sv) (world a) of
        (r, w) \<Rightarrow>
          (let a' = a\<lparr> world := w \<rparr>;
               unavailable =
                 (\<lparr> status = 503,
                    body = JObj [(''error'', JStr UNAVAILABLE_MESSAGE),
                                 (''fallback_triggered_for'',
                                    JStr (js_join '', '' fallbacksTriggered))] \<rparr>, a')
           in case r of
                Inl trendErr \<Rightarrow> unavailable
              | Inr trendingData \<Rightarrow>
                  (case getProp trendingData ''trending'' of
                     Inl trendErr \<Rightarrow> unavailable
                   | Inr trending \<Rightarrow>
                       (\<lparr> status = 200,
                          body = JObj [(''message'', JStr DEGRADED_MESSAGE),
                                       (''trending'', trending),
                                       (''fallback_triggered_for'',
                                          JStr (js_join '', '' fallbacksTriggered))] \<rparr>, a'))))"

text \<open>Step 4: the combined response.\<close>

definition combinedResponse :: "jsval \<times> jsval \<Rightarrow> jsval \<Rightarrow> string list \<Rightarrow> response" where
  "combinedResponse userPreferences recommendations fallbacksTriggered =
     \<lparr> status = 200,
       body = JObj ([(''userPreferences'',
                       JObj [(''userId'', fst userPreferences),
                             (''preferences'', snd userPreferences)]),
                     (''recommendations'', recommendations)]
                    @ (if 0 < length fallbacksTriggered
                       then [(''fallback_triggered_for'',
                                JStr (js_join '', '' fallbacksTriggered))]
                       else [])) \<rparr>"

text \<open>The handler of \<^verbatim>\<open>GET /recommendations/:userId\<close>.\<close>

definition recommend :: "services \<Rightarrow> string \<Rightarrow> app \<Rightarrow> response \<times> app" where
  "recommend sv userId a =
     (case fetchUserPreferences sv userId a of
        ((userPreferences, fallbacks1), a1) \<Rightarrow>
          (case fetchRecommendations sv userPreferences fallbacks1 a1 of
             ((None, fallbacksTriggered), a2) \<Rightarrow> trendingFallback sv fallbacksTriggered a2
           | ((Some recommendations, fallbacksTriggered), a2) \<Rightarrow>
               (combinedResponse userPreferences recommendations fallbacksTriggered, a2)))"

section \<open>Breakers for the examples\<close>

text \<open>A breaker of the content service that is probing: one trial made, and it succeeded.\<close>

definition probing_breaker :: breaker where
  "probing_breaker = \<lparr> state = HALF_OPEN, window = [True, False, True],
     consecutiveFailures = 0, openedAt = None, halfOpenTrials = 1, halfOpenSuccesses = 1,
     totalSuccess = 2, totalFailure = 1 \<rparr>"

text \<open>
  A breaker that opens for one second only, while a call may take two: five failures
  open it at 0; the probe admitted at 1000 is still in flight when a second probe,
  admitted at 1100, fails at 1200 and opens the breaker again; a metrics read at 2200
  finds the second over and the breaker half open; the first probe succeeds at 2500.
\<close>

definition short_open_config :: config where
  "short_open_config = (default_config ''content-service'')\<lparr> openStateDuration := 1000 \<rparr>"

definition overlapping_probes :: "event list" where
  "overlapping_probes =
     [Admit 0, Fail 0, Admit 0, Fail 0, Admit 0, Fail 0, Admit 0, Fail 0, Admit 0, Fail 0,
      Admit 1000, Admit 1100, Fail 1200, ReadMetrics 2200, Succeed 2500]"

definition stale_success_breaker :: breaker where
  "stale_success_breaker = \<lparr> state = HALF_OPEN,
     window = [False, False, False, False, False, False, True],
     consecutiveFailures = 0, openedAt = None, halfOpenTrials = 0, halfOpenSuccesses = 1,
     totalSuccess = 1, totalFailure = 6 \<rparr>"

text \<open>
  A breaker opened at 0 with the default 30 seconds, asked again at 30 seconds exactly:
  three successes in a row, or a failure and a later call.
\<close>

definition opened_at_zero :: breaker where
  "opened_at_zero = new_breaker\<lparr> state := OPEN, openedAt := Some 0 \<rparr>"

definition recovery :: "unit call list" where
  "recovery =
     [Execute 30000 (\<lambda>t. (Inr (), t + 10)),
      Execute 30010 (\<lambda>t. (Inr (), t + 10)),
      Execute 30020 (\<lambda>t. (Inr (), t + 10))]"

definition retrip :: "unit call list" where
  "retrip =
     [Execute 30000 (\<lambda>t. (Inl TimeoutError, t)),
      Execute 39000 (\<lambda>t. (Inr (), t + 10))]"

text \<open>
  The same without overlap: five timeouts in a row open a fresh breaker, a metrics read
  finds it half open, and a probe is admitted and succeeds.
\<close>

definition probe_after_trip :: "unit call list" where
  "probe_after_trip =
     [Execute 0 (\<lambda>t. (Inl TimeoutError, t + 2000)),
      Execute 2000 (\<lambda>t. (Inl TimeoutError, t + 2000)),
      Execute 4000 (\<lambda>t. (Inl TimeoutError, t + 2000)),
      Execute 6000 (\<lambda>t. (Inl TimeoutError, t + 2000)),
      Execute 8000 (\<lambda>t. (Inl TimeoutError, t + 2000)),
      GetMetrics 20000,
      Execute 40000 (\<lambda>t. (Inr (), t + 40))]"

definition probed_breaker :: breaker where
  "probed_breaker = \<lparr> state = HALF_OPEN,
     window = [False, False, False, False, False, True],
     consecutiveFailures = 0, openedAt = None, halfOpenTrials = 1, halfOpenSuccesses = 1,
     totalSuccess = 1, totalFailure = 5 \<rparr>"

text \<open>Downstream services for the examples, and the application as it starts.\<close>

definition profile_body :: "string \<Rightarrow> jsval" where
  "profile_body userId =
     JObj [(''userId'', JStr userId), (''preferences'', JArr [JStr ''Action'', JStr ''Sci-Fi''])]"

definition movies_body :: jsval where
  "movies_body = JObj [(''movies'',
     JArr [JObj [(''movieId'', JNum 102), (''title'', JStr ''The Dark Knight''),
                 (''genre'', JStr ''Action'')]])]"

definition trending_body :: jsval where
  "trending_body = JObj [(''trending'',
     JArr [JObj [(''movieId'', JNum 99), (''title'', JStr ''Trending Movie 1''),
                 (''genre'', JStr ''Action'')]])]"

definition healthy :: services where
  "healthy = \<lparr> userProfileGet = (\<lambda>userId t. (Inr (profile_body userId), t + 20)),
               contentGet = (\<lambda>genres t. (Inr movies_body, t + 30)),
               trendingGet = (\<lambda>t. (Inr trending_body, t + 10)) \<rparr>"

definition failing :: "'a operation" where
  "failing = (\<lambda>t. (Inl (RequestError ''Request failed with status code 500''), t + 5))"


definition profile_down :: services where
  "profile_down = healthy\<lparr> userProfileGet := (\<lambda>userId. failing) \<rparr>"





definition fresh_app :: app where
  "fresh_app = \<lparr> userProfileBreaker = new_breaker, contentBreaker = new_breaker,
                 world = \<lparr> clock = 0, invoked = [] \<rparr> \<rparr>"




section \<open>The number model on known values\<close>

text \<open>
  The binary64 values nearest to \<open>1/10\<close> and \<open>1/3\<close>, values that are exact, and rates as
  \<^verbatim>\<open>toFixed(1)\<close> prints them; \<open>6.25\<close> is a tie and goes up.
\<close>

lemma fl_tenth: "fl (1 / 10) = 3602879701896397 / 36028797018963968"
  by code_simp

lemma fl_third: "fl (1 / 3) = 6004799503160661 / 18014398509481984"
  by code_simp

lemma fl_exact: "fl (1 / 2) = 1 / 2" "fl 100 = 100" "fl (25 / 4) = 25 / 4"
  by code_simp+

lemma toFixed1_examples:
  "toFixed1 (js_mul (js_div 1 3) 100) = ''33.3''"
  "toFixed1 (js_mul (js_div 2 3) 100) = ''66.7''"
  "toFixed1 (js_mul (js_div 1 16) 100) = ''6.3''"
  "toFixed1 (js_mul (js_div 10 10) 100) = ''100.0''"
  "toFixed1 (js_mul (js_div 0 7) 100) = ''0.0''"
  by code_simp+

section \<open>Properties of the circuit breaker\<close>

subsection \<open>Recovery and a second trip\<close>

text \<open>
  Three successful probes from 30 seconds on close the breaker, and the snapshot then
  shows \<open>N/A\<close>; a probe that fails at 30 seconds opens it again at that time, and a call nine
  seconds later is rejected.
\<close>

lemma recovery_closes:
  "run contentConfig recovery opened_at_zero =
     new_breaker\<lparr> totalSuccess := 3 \<rparr>"
  "halfOpenTrials' (fst (getMetrics contentConfig 30030 (run contentConfig recovery opened_at_zero)))
     = ''N/A''"
  by (simp_all add: recovery_def opened_at_zero_def contentConfig_def
      default_config_def new_breaker_def execute_def admit_def settle_def invoke_def
      maybeTransitionFromOpen_def onSuccess_def recordResult_def transition_def
      getMetrics_def Let_def)

lemma retrip_opens_again:
  "run contentConfig retrip opened_at_zero =
     new_breaker\<lparr> state := OPEN, openedAt := Some 30000, window := [False],
                  consecutiveFailures := 1, totalFailure := 1 \<rparr>"
  by (simp add: retrip_def opened_at_zero_def contentConfig_def
      default_config_def new_breaker_def execute_def admit_def settle_def invoke_def
      maybeTransitionFromOpen_def onFailure_def recordResult_def transition_def Let_def)

subsection \<open>Tripping in state CLOSED\<close>

lemma window_recordResult:
  "window (recordResult cfg r b) =
     (if windowSize cfg < length (window b) + 1 then tl (window b @ [r]) else window b @ [r])"
  by (simp add: recordResult_def Let_def)

lemma recordResult_fields:
  "state (recordResult cfg r b) = state b"
  "consecutiveFailures (recordResult cfg r b) = consecutiveFailures b"
  "openedAt (recordResult cfg r b) = openedAt b"
  "halfOpenTrials (recordResult cfg r b) = halfOpenTrials b"
  "halfOpenSuccesses (recordResult cfg r b) = halfOpenSuccesses b"
  "totalSuccess (recordResult cfg r b) = totalSuccess b"
  "totalFailure (recordResult cfg r b) = totalFailure b"
  by (simp_all add: recordResult_def Let_def)

lemma getFailureRate_window:
  "window b = window b' \<Longrightarrow> getFailureRate b = getFailureRate b'"
  by (simp add: getFailureRate_def)

lemma state_transition: "state (transition now s b) = s"
  by (cases s) (simp_all add: transition_def)

lemma state_onFailure_closed:
  assumes "state b = CLOSED"
  shows "state (onFailure cfg now b) =
     (if consecutiveFailureThreshold cfg \<le> consecutiveFailures b + 1 then OPEN
      else if windowSize cfg \<le> length (window (recordResult cfg False b))
              \<and> failureRateThreshold cfg \<le> getFailureRate (recordResult cfg False b)
      then OPEN else CLOSED)"
proof -
  have w: "\<And>x y. window (recordResult cfg False (b\<lparr> totalFailure := x, consecutiveFailures := y \<rparr>))
             = window (recordResult cfg False b)"
    by (simp add: window_recordResult)
  have r: "\<And>x y. getFailureRate (recordResult cfg False (b\<lparr> totalFailure := x, consecutiveFailures := y \<rparr>))
             = getFailureRate (recordResult cfg False b)"
    by (rule getFailureRate_window) (rule w)
  show ?thesis using assms
    by (simp add: onFailure_def Let_def recordResult_fields state_transition w r)
qed

lemma openedAt_onFailure_closed:
  assumes "state b = CLOSED"
  shows "openedAt (onFailure cfg now b) =
     (if state (onFailure cfg now b) = OPEN then Some now else openedAt b)"
  using assms by (simp add: onFailure_def Let_def recordResult_fields transition_def)

lemma admit_closed: "state b = CLOSED \<Longrightarrow> admit cfg now b = (None, b)"
  by (simp add: admit_def maybeTransitionFromOpen_def)

text \<open>
  Claim C1. A failure of a call admitted in state \<open>CLOSED\<close> is accounted by
  \<open>onFailure\<close>, which then decides in this order: the breaker opens when the consecutive
  failures, this one included, have reached \<open>consecutiveFailureThreshold\<close>, whatever the
  window holds; otherwise it opens exactly when the window, this failure included, holds
  at least \<open>windowSize\<close> outcomes and its failure rate, the number of \<open>False\<close> entries
  divided by its length, has reached \<open>failureRateThreshold\<close>; otherwise it stays
  \<open>CLOSED\<close>. So a window shorter than \<open>windowSize\<close> never trips on its rate, and both
  comparisons are \<open>\<le>\<close>: reaching a threshold trips. On opening, \<open>openedAt\<close> is the time
  of the failure.
\<close>

theorem closed_failure_trips:
  assumes "state b = CLOSED" and "fn (clock w) = (Inl err, t)"
  shows "execute cfg fn (b, w)
           = (Inl err, onFailure cfg t b, \<lparr> clock = t, invoked = invoked w @ [name cfg] \<rparr>)
       \<and> state (onFailure cfg t b) =
           (if consecutiveFailureThreshold cfg \<le> consecutiveFailures b + 1 then OPEN
            else if windowSize cfg \<le> length (window (recordResult cfg False b))
                    \<and> failureRateThreshold cfg \<le> getFailureRate (recordResult cfg False b)
            then OPEN else CLOSED)
       \<and> window (recordResult cfg False b) =
           (if windowSize cfg < length (window b) + 1
            then tl (window b @ [False]) else window b @ [False])
       \<and> getFailureRate (recordResult cfg False b) =
           (if window (recordResult cfg False b) = [] then 0
            else js_div (of_nat (length (filter (\<lambda>r. \<not> r) (window (recordResult cfg False b)))))
                        (of_nat (length (window (recordResult cfg False b)))))
       \<and> openedAt (onFailure cfg t b) =
           (if state (onFailure cfg t b) = OPEN then Some t else openedAt b)"
proof -
  have e: "execute cfg fn (b, w)
           = (Inl err, onFailure cfg t b, \<lparr> clock = t, invoked = invoked w @ [name cfg] \<rparr>)"
    using assms by (simp add: execute_def admit_closed settle_def invoke_def)
  have g: "getFailureRate (recordResult cfg False b) =
           (if window (recordResult cfg False b) = [] then 0
            else js_div (of_nat (length (filter (\<lambda>r. \<not> r) (window (recordResult cfg False b)))))
                        (of_nat (length (window (recordResult cfg False b)))))"
    by (simp add: getFailureRate_def failures_def)
  from e state_onFailure_closed [OF assms(1)] window_recordResult g
    openedAt_onFailure_closed [OF assms(1)]
  show ?thesis by blast
qed

text \<open>
  Five failures in a full window of ten, one failure in a row: the rate \<open>1/2\<close> reaches
  the default threshold and the breaker opens.
\<close>

theorem closed_failure_trips_witness:
  "state (new_breaker\<lparr> window := [False, True, False, True, False, True, False, True, True] \<rparr>) = CLOSED
   \<and> (\<lambda>t. (Inl TimeoutError :: js_error + unit, t + 2000)) (clock \<lparr> clock = 0, invoked = [] \<rparr>)
       = (Inl TimeoutError, 2000)
   \<and> state (onFailure (default_config ''content-service'') 2000
        (new_breaker\<lparr> window := [False, True, False, True, False, True, False, True, True] \<rparr>)) = OPEN
   \<and> openedAt (onFailure (default_config ''content-service'') 2000
        (new_breaker\<lparr> window := [False, True, False, True, False, True, False, True, True] \<rparr>)) = Some 2000"
proof -
  have r: "js_div 5 10 = 1 / 2" by code_simp
  show ?thesis
    using closed_failure_trips [of "new_breaker\<lparr> window := [False, True, False, True, False, True, False, True, True] \<rparr>"
      "\<lambda>t. (Inl TimeoutError :: js_error + unit, t + 2000)" "\<lparr> clock = 0, invoked = [] \<rparr>" TimeoutError 2000
      "default_config ''content-service''"]
    by (simp add: new_breaker_def default_config_def r)
qed

subsection \<open>Leaving state OPEN\<close>

lemma maybeTransitionFromOpen_open:
  assumes "state b = OPEN" and "openedAt b = Some t"
  shows "maybeTransitionFromOpen cfg now b =
     (if openStateDuration cfg \<le> now - t then transition now HALF_OPEN b else b)"
  using assms by (simp add: maybeTransitionFromOpen_def Let_def)

lemma maybeTransitionFromOpen_not_open:
  "state b \<noteq> OPEN \<Longrightarrow> maybeTransitionFromOpen cfg now b = b"
  by (simp add: maybeTransitionFromOpen_def)

lemma maybeTransitionFromOpen_idem:
  "maybeTransitionFromOpen cfg now (transition now HALF_OPEN b) = transition now HALF_OPEN b"
  by (simp add: maybeTransitionFromOpen_not_open state_transition)

text \<open>
  Claim C2. For a breaker in state \<open>OPEN\<close>, opened at \<open>t\<close>: the time-driven check, which
  \<open>execute\<close>, \<open>getMetrics\<close> and the \<open>state\<close> getter all run first, moves it to \<open>HALF_OPEN\<close>
  when \<open>now - t\<close> has reached \<open>openStateDuration\<close> (equality included) and leaves it as it
  is before. The getter and the snapshot then report that state, and \<open>execute\<close> goes on
  as on the \<open>HALF_OPEN\<close> breaker, or rejects with the state \<open>OPEN\<close> and changes nothing.
\<close>

theorem open_until_duration_elapsed:
  assumes "state b = OPEN" and "openedAt b = Some t"
  shows "maybeTransitionFromOpen cfg now b =
           (if openStateDuration cfg \<le> now - t then transition now HALF_OPEN b else b)
       \<and> state (transition now HALF_OPEN b) = HALF_OPEN
       \<and> getState cfg now b =
           (if openStateDuration cfg \<le> now - t
            then (HALF_OPEN, transition now HALF_OPEN b) else (OPEN, b))
       \<and> state' (fst (getMetrics cfg now b)) =
           (if openStateDuration cfg \<le> now - t then HALF_OPEN else OPEN)
       \<and> snd (getMetrics cfg now b) =
           (if openStateDuration cfg \<le> now - t then transition now HALF_OPEN b else b)
       \<and> admit cfg now b =
           (if openStateDuration cfg \<le> now - t
            then admit cfg now (transition now HALF_OPEN b)
            else (Some (CircuitOpenError (name cfg) OPEN), b))
       \<and> state (snd (admit cfg now b)) =
           (if openStateDuration cfg \<le> now - t then HALF_OPEN else OPEN)
       \<and> execute cfg fn (b, \<lparr> clock = now, invoked = l \<rparr>) =
           (if openStateDuration cfg \<le> now - t
            then execute cfg fn (transition now HALF_OPEN b, \<lparr> clock = now, invoked = l \<rparr>)
            else (Inl (CircuitOpenError (name cfg) OPEN), b, \<lparr> clock = now, invoked = l \<rparr>))"
proof -
  note m = maybeTransitionFromOpen_open [OF assms]
  have a: "admit cfg now b =
           (if openStateDuration cfg \<le> now - t
            then admit cfg now (transition now HALF_OPEN b)
            else (Some (CircuitOpenError (name cfg) OPEN), b))"
    using assms(1) by (simp add: admit_def m maybeTransitionFromOpen_idem)
  have s: "state (snd (admit cfg now b)) =
           (if openStateDuration cfg \<le> now - t then HALF_OPEN else OPEN)"
    using assms(1) by (simp add: admit_def m state_transition Let_def)
  have e: "execute cfg fn (b, \<lparr> clock = now, invoked = l \<rparr>) =
           (if openStateDuration cfg \<le> now - t
            then execute cfg fn (transition now HALF_OPEN b, \<lparr> clock = now, invoked = l \<rparr>)
            else (Inl (CircuitOpenError (name cfg) OPEN), b, \<lparr> clock = now, invoked = l \<rparr>))"
    by (simp add: execute_def a)
  have g: "getState cfg now b =
           (if openStateDuration cfg \<le> now - t
            then (HALF_OPEN, transition now HALF_OPEN b) else (OPEN, b))"
    using assms(1) by (simp add: getState_def m state_transition)
  have k: "state' (fst (getMetrics cfg now b)) =
           (if openStateDuration cfg \<le> now - t then HALF_OPEN else OPEN)"
    using assms(1) by (simp add: getMetrics_def m state_transition Let_def)
  have k2: "snd (getMetrics cfg now b) =
           (if openStateDuration cfg \<le> now - t then transition now HALF_OPEN b else b)"
    by (simp add: getMetrics_def m Let_def)
  from m state_transition a s e g k k2 show ?thesis by blast
qed

text \<open>Opened at 1000 with the default 30000: at 31000 exactly the breaker is half open.\<close>

theorem open_until_duration_elapsed_witness:
  "state (new_breaker\<lparr> state := OPEN, openedAt := Some 1000 \<rparr>) = OPEN
   \<and> openedAt (new_breaker\<lparr> state := OPEN, openedAt := Some 1000 \<rparr>) = Some 1000
   \<and> getState (default_config ''content-service'') 31000
        (new_breaker\<lparr> state := OPEN, openedAt := Some 1000 \<rparr>)
       = (HALF_OPEN, new_breaker\<lparr> state := HALF_OPEN \<rparr>)
   \<and> state' (fst (getMetrics (default_config ''content-service'') 31000
        (new_breaker\<lparr> state := OPEN, openedAt := Some 1000 \<rparr>))) = HALF_OPEN
   \<and> state (snd (admit (default_config ''content-service'') 31000
        (new_breaker\<lparr> state := OPEN, openedAt := Some 1000 \<rparr>))) = HALF_OPEN"
  using open_until_duration_elapsed [of "new_breaker\<lparr> state := OPEN, openedAt := Some 1000 \<rparr>" 1000
      "default_config ''content-service''" 31000 "\<lambda>t. (Inr (), t)" "[]"]
  by (simp add: new_breaker_def default_config_def transition_def getState_def getMetrics_def
      admit_def maybeTransitionFromOpen_def Let_def)

subsection \<open>Probing in state HALF_OPEN\<close>






subsection \<open>Rejected calls\<close>

lemma untouched_by_maybeTransitionFromOpen:
  "window (maybeTransitionFromOpen cfg now b) = window b"
  "consecutiveFailures (maybeTransitionFromOpen cfg now b) = consecutiveFailures b"
  "totalSuccess (maybeTransitionFromOpen cfg now b) = totalSuccess b"
  "totalFailure (maybeTransitionFromOpen cfg now b) = totalFailure b"
  by (simp_all add: maybeTransitionFromOpen_def transition_def Let_def)

lemma admit_rejects_iff:
  "(fst (admit cfg now b) \<noteq> None) =
     (state (maybeTransitionFromOpen cfg now b) = OPEN
      \<or> state (maybeTransitionFromOpen cfg now b) = HALF_OPEN
        \<and> halfOpenMaxTrials cfg \<le> halfOpenTrials (maybeTransitionFromOpen cfg now b))"
  by (simp add: admit_def Let_def)

text \<open>
  Claim C4. When the breaker, after the time-driven check, is \<open>OPEN\<close>, or \<open>HALF_OPEN\<close> with
  all its trials allocated, \<open>execute\<close> fails with a \<open>CircuitOpenError\<close> that carries that
  state; the operation is not run (the world, its list of issued requests included, is
  returned as it was, whatever the operation is), and the window, the consecutive
  failures and both totals are those of before.
\<close>

theorem rejection_leaves_accounts:
  assumes "state (maybeTransitionFromOpen cfg (clock w) b) = OPEN
           \<or> state (maybeTransitionFromOpen cfg (clock w) b) = HALF_OPEN
             \<and> halfOpenMaxTrials cfg \<le> halfOpenTrials (maybeTransitionFromOpen cfg (clock w) b)"
  shows "execute cfg fn (b, w) =
           (Inl (CircuitOpenError (name cfg) (state (maybeTransitionFromOpen cfg (clock w) b))),
            maybeTransitionFromOpen cfg (clock w) b, w)
       \<and> window (maybeTransitionFromOpen cfg (clock w) b) = window b
       \<and> consecutiveFailures (maybeTransitionFromOpen cfg (clock w) b) = consecutiveFailures b
       \<and> totalSuccess (maybeTransitionFromOpen cfg (clock w) b) = totalSuccess b
       \<and> totalFailure (maybeTransitionFromOpen cfg (clock w) b) = totalFailure b"
proof -
  have "admit cfg (clock w) b =
          (Some (CircuitOpenError (name cfg) (state (maybeTransitionFromOpen cfg (clock w) b))),
           maybeTransitionFromOpen cfg (clock w) b)"
    using assms by (auto simp add: admit_def Let_def)
  then have "execute cfg fn (b, w) =
           (Inl (CircuitOpenError (name cfg) (state (maybeTransitionFromOpen cfg (clock w) b))),
            maybeTransitionFromOpen cfg (clock w) b, w)"
    by (simp add: execute_def)
  then show ?thesis by (simp add: untouched_by_maybeTransitionFromOpen)
qed

text \<open>
  A breaker opened at 1000 and asked at 5000: the call is rejected, the breaker and the
  world are as before, and nothing was asked downstream.
\<close>

theorem rejection_leaves_accounts_witness:
  "state (maybeTransitionFromOpen (default_config ''content-service'')
       (clock \<lparr> clock = 5000, invoked = [] \<rparr>)
       (new_breaker\<lparr> state := OPEN, openedAt := Some 1000, window := [False, False],
          consecutiveFailures := 2, totalSuccess := 7, totalFailure := 2 \<rparr>)) = OPEN
   \<and> execute (default_config ''content-service'') (\<lambda>t. (Inr (), t + 40))
       (new_breaker\<lparr> state := OPEN, openedAt := Some 1000, window := [False, False],
          consecutiveFailures := 2, totalSuccess := 7, totalFailure := 2 \<rparr>,
        \<lparr> clock = 5000, invoked = [] \<rparr>)
     = (Inl (CircuitOpenError ''content-service'' OPEN),
        new_breaker\<lparr> state := OPEN, openedAt := Some 1000, window := [False, False],
          consecutiveFailures := 2, totalSuccess := 7, totalFailure := 2 \<rparr>,
        \<lparr> clock = 5000, invoked = [] \<rparr>)"
proof -
  let ?b = "new_breaker\<lparr> state := OPEN, openedAt := Some 1000, window := [False, False],
          consecutiveFailures := 2, totalSuccess := 7, totalFailure := 2 \<rparr>"
  let ?cfg = "default_config ''content-service''"
  let ?w = "\<lparr> clock = 5000, invoked = [] \<rparr>"
  have m: "maybeTransitionFromOpen ?cfg (clock ?w) ?b = ?b"
    by (simp add: maybeTransitionFromOpen_def default_config_def new_breaker_def)
  have h: "state (maybeTransitionFromOpen ?cfg (clock ?w) ?b) = OPEN
           \<or> state (maybeTransitionFromOpen ?cfg (clock ?w) ?b) = HALF_OPEN
             \<and> halfOpenMaxTrials ?cfg \<le> halfOpenTrials (maybeTransitionFromOpen ?cfg (clock ?w) ?b)"
    by (simp only: m) simp
  have n: "name ?cfg = ''content-service''" by (simp add: default_config_def)
  from rejection_leaves_accounts [OF h, of "\<lambda>t. (Inr (), t + 40)"] m n
  show ?thesis by simp
qed

subsection \<open>Invariants\<close>

lemma invariant_new_breaker: "invariant cfg new_breaker"
  by (simp add: invariant_def new_breaker_def)

lemma invariant_transition: "invariant cfg (transition now CLOSED b)"
  "invariant cfg b \<Longrightarrow> invariant cfg (transition now OPEN b)"
  "invariant cfg b \<Longrightarrow> invariant cfg (transition now HALF_OPEN b)"
  by (simp_all add: invariant_def transition_def)

lemma invariant_maybeTransitionFromOpen:
  "invariant cfg b \<Longrightarrow> invariant cfg (maybeTransitionFromOpen cfg now b)"
  by (simp add: maybeTransitionFromOpen_def Let_def invariant_transition)

lemma length_window_recordResult:
  "length (window b) \<le> windowSize cfg \<Longrightarrow> length (window (recordResult cfg r b)) \<le> windowSize cfg"
  by (simp add: window_recordResult)

lemma invariant_recordResult:
  "invariant cfg b \<Longrightarrow> invariant cfg (recordResult cfg r b)"
  using length_window_recordResult [of b cfg r]
  by (simp add: invariant_def recordResult_fields)

lemma admit_admitted:
  assumes "invariant cfg b" and "admit cfg now b = (None, b1)"
  shows "admitted cfg b1"
proof -
  let ?m = "maybeTransitionFromOpen cfg now b"
  have i: "invariant cfg ?m" using assms(1) by (rule invariant_maybeTransitionFromOpen)
  show ?thesis
  proof (cases "state ?m")
    case CLOSED
    with assms(2) have "b1 = ?m" by (simp add: admit_def Let_def)
    with i CLOSED show ?thesis by (simp add: admitted_def)
  next
    case OPEN
    with assms(2) show ?thesis by (simp add: admit_def Let_def)
  next
    case HALF_OPEN
    with assms(2) have "halfOpenTrials ?m < halfOpenMaxTrials cfg"
      and "b1 = ?m\<lparr> halfOpenTrials := halfOpenTrials ?m + 1 \<rparr>"
      by (auto simp add: admit_def Let_def split: if_splits)
    with i HALF_OPEN show ?thesis by (simp add: admitted_def invariant_def)
  qed
qed

lemma admit_rejected_invariant:
  assumes "invariant cfg b" and "admit cfg now b = (Some e, b1)"
  shows "invariant cfg b1"
proof -
  have "b1 = maybeTransitionFromOpen cfg now b"
    using assms(2) by (auto simp add: admit_def Let_def split: if_splits)
  with assms(1) show ?thesis by (simp add: invariant_maybeTransitionFromOpen)
qed

lemma invariant_onSuccess:
  "admitted cfg b \<Longrightarrow> invariant cfg (onSuccess cfg t b)"
  by (auto simp add: onSuccess_def Let_def admitted_def invariant_def recordResult_fields
      transition_def length_window_recordResult)

lemma invariant_onFailure:
  "admitted cfg b \<Longrightarrow> invariant cfg (onFailure cfg t b)"
  by (auto simp add: onFailure_def Let_def admitted_def invariant_def recordResult_fields
      transition_def length_window_recordResult)

lemma invariant_execute:
  assumes "invariant cfg b"
  shows "invariant cfg (fst (snd (execute cfg fn (b, w))))"
proof (cases "admit cfg (clock w) b")
  case (Pair r b1)
  show ?thesis
  proof (cases r)
    case None
    with Pair assms have "admitted cfg b1" by (simp add: admit_admitted)
    then show ?thesis using Pair None
      by (simp add: execute_def settle_def invariant_onSuccess invariant_onFailure
          split: prod.splits sum.splits)
  next
    case (Some e)
    with Pair assms have "invariant cfg b1" by (simp add: admit_rejected_invariant)
    then show ?thesis using Pair Some by (simp add: execute_def)
  qed
qed

lemma invariant_step:
  assumes "invariant cfg b"
  shows "invariant cfg (step cfg c b)"
proof (cases c)
  case (Execute t fn)
  then show ?thesis using assms by (simp add: invariant_execute)
next
  case (GetMetrics t)
  then show ?thesis using assms
    by (simp add: getMetrics_def Let_def invariant_maybeTransitionFromOpen)
next
  case (GetState t)
  then show ?thesis using assms
    by (simp add: getState_def Let_def invariant_maybeTransitionFromOpen)
next
  case (Reset t)
  have "invariant cfg (transition t CLOSED b)" by (rule invariant_transition)
  then show ?thesis using Reset by (simp add: reset_def invariant_def)
qed

lemma invariant_run: "invariant cfg b \<Longrightarrow> invariant cfg (run cfg cs b)"
  by (induction cs arbitrary: b) (simp_all add: invariant_step)

lemma invariant_overlapping_transition:
  "invariant_overlapping cfg (transition now CLOSED b)"
  "invariant_overlapping cfg b \<Longrightarrow> invariant_overlapping cfg (transition now OPEN b)"
  "invariant_overlapping cfg b \<Longrightarrow> invariant_overlapping cfg (transition now HALF_OPEN b)"
  by (simp_all add: invariant_overlapping_def transition_def)

lemma invariant_overlapping_maybeTransitionFromOpen:
  "invariant_overlapping cfg b \<Longrightarrow> invariant_overlapping cfg (maybeTransitionFromOpen cfg now b)"
  by (simp add: maybeTransitionFromOpen_def Let_def invariant_overlapping_transition)

lemma invariant_overlapping_admit:
  "invariant_overlapping cfg b \<Longrightarrow> invariant_overlapping cfg (snd (admit cfg now b))"
  using invariant_overlapping_maybeTransitionFromOpen [of cfg b now]
  by (auto simp add: admit_def Let_def invariant_overlapping_def)

lemma invariant_overlapping_onSuccess:
  "invariant_overlapping cfg b \<Longrightarrow> invariant_overlapping cfg (onSuccess cfg t b)"
  by (auto simp add: onSuccess_def Let_def invariant_overlapping_def recordResult_fields
      transition_def length_window_recordResult)

lemma invariant_overlapping_onFailure:
  "invariant_overlapping cfg b \<Longrightarrow> invariant_overlapping cfg (onFailure cfg t b)"
  by (auto simp add: onFailure_def Let_def invariant_overlapping_def recordResult_fields
      transition_def length_window_recordResult)

lemma invariant_overlapping_fire:
  assumes "invariant_overlapping cfg b" and "fire cfg e (b, n) = Some (b', n')"
  shows "invariant_overlapping cfg b'"
proof (cases e)
  case (Admit t)
  with assms(2) have "b' = snd (admit cfg t b)"
    by (auto split: prod.splits option.splits)
  with assms(1) show ?thesis by (simp add: invariant_overlapping_admit)
next
  case (Succeed t)
  with assms show ?thesis by (auto simp add: invariant_overlapping_onSuccess split: if_splits)
next
  case (Fail t)
  with assms show ?thesis by (auto simp add: invariant_overlapping_onFailure split: if_splits)
next
  case (ReadMetrics t)
  with assms show ?thesis
    by (auto simp add: getMetrics_def Let_def invariant_overlapping_maybeTransitionFromOpen)
next
  case (ReadState t)
  with assms show ?thesis
    by (auto simp add: getState_def Let_def invariant_overlapping_maybeTransitionFromOpen)
next
  case (DoReset t)
  have "invariant_overlapping cfg (transition t CLOSED b)"
    by (rule invariant_overlapping_transition)
  with DoReset assms(2) show ?thesis
    by (auto simp add: reset_def invariant_overlapping_def)
qed

lemma invariant_overlapping_play:
  "invariant_overlapping cfg b \<Longrightarrow> play cfg es (b, n) = Some (b', n')
     \<Longrightarrow> invariant_overlapping cfg b'"
proof (induction es arbitrary: b n)
  case Nil
  then show ?case by simp
next
  case (Cons e es)
  from Cons.prems(2) obtain b1 n1 where f: "fire cfg e (b, n) = Some (b1, n1)"
    and p: "play cfg es (b1, n1) = Some (b', n')"
    by (auto split: option.splits)
  from Cons.prems(1) f have "invariant_overlapping cfg b1" by (rule invariant_overlapping_fire)
  then show ?case using p by (rule Cons.IH)
qed

text \<open>An \<open>execute\<close> that nothing interrupts is its admission followed by its outcome.\<close>

lemma play_execute:
  "play cfg (Admit (clock w) #
       (if fst (admit cfg (clock w) b) = None
        then [case fn (clock w) of (Inr v, t) \<Rightarrow> Succeed t | (Inl e, t) \<Rightarrow> Fail t] else []))
     (b, n)
   = Some (fst (snd (execute cfg fn (b, w))), n)"
  by (cases "admit cfg (clock w) b")
     (auto simp add: execute_def settle_def invoke_def split: prod.splits sum.splits option.splits)

text \<open>What the events and the calls come to on the example breakers.\<close>

lemma play_overlapping_probes:
  "play short_open_config overlapping_probes (new_breaker, 0) = Some (stale_success_breaker, 0)"
  by (simp add: short_open_config_def overlapping_probes_def stale_success_breaker_def
      default_config_def new_breaker_def admit_def maybeTransitionFromOpen_def onFailure_def
      onSuccess_def recordResult_def transition_def getMetrics_def Let_def)

lemma run_probe_after_trip:
  "run short_open_config probe_after_trip new_breaker = probed_breaker"
  by (simp add: short_open_config_def probe_after_trip_def probed_breaker_def
      default_config_def new_breaker_def execute_def admit_def settle_def invoke_def
      maybeTransitionFromOpen_def onFailure_def onSuccess_def recordResult_def transition_def
      getMetrics_def Let_def)

text \<open>
  Claim C5, as the source has it. The claim is that after every call \<open>openedAt\<close> is set
  exactly when the state is \<open>OPEN\<close>, that
  \<open>halfOpenSuccesses \<le> halfOpenTrials \<le> halfOpenMaxTrials\<close>, and that the window is no
  longer than \<open>windowSize\<close>. The breaker accounts an outcome in the state it is in when the
  outcome arrives, not in the one that admitted the call: a probe admitted in one
  half-open period whose success arrives in the next one is counted there as a success
  with no trial.
\<close>

theorem overlapping_probes_counterexample:
  "play short_open_config overlapping_probes (new_breaker, 0) = Some (stale_success_breaker, 0)
   \<and> halfOpenSuccesses stale_success_breaker = 1
   \<and> halfOpenTrials stale_success_breaker = 0
   \<and> \<not> halfOpenSuccesses stale_success_breaker \<le> halfOpenTrials stale_success_breaker"
  by (simp add: play_overlapping_probes) (simp add: stale_success_breaker_def)

text \<open>
  Claim C5, amended. Starting from the breaker the constructor makes, whatever the
  operations do and whatever the clock shows: when the calls run one after the other,
  each \<open>execute\<close> to its outcome, all of the claim holds after every call; when calls
  overlap, \<open>openedAt\<close> is still set exactly when the state is \<open>OPEN\<close>,
  \<open>halfOpenTrials \<le> halfOpenMaxTrials\<close> and the window is no longer than \<open>windowSize\<close>.
\<close>

theorem invariant_after_every_call:
  "(openedAt (run cfg cs new_breaker) \<noteq> None) = (state (run cfg cs new_breaker) = OPEN)
   \<and> halfOpenSuccesses (run cfg cs new_breaker) \<le> halfOpenTrials (run cfg cs new_breaker)
   \<and> halfOpenTrials (run cfg cs new_breaker) \<le> halfOpenMaxTrials cfg
   \<and> length (window (run cfg cs new_breaker)) \<le> windowSize cfg
   \<and> (play cfg es (new_breaker, 0) = Some (b, n) \<longrightarrow>
        (openedAt b \<noteq> None) = (state b = OPEN)
        \<and> halfOpenTrials b \<le> halfOpenMaxTrials cfg
        \<and> length (window b) \<le> windowSize cfg)"
proof -
  have "invariant_overlapping cfg new_breaker"
    by (simp add: invariant_overlapping_def new_breaker_def)
  then have "play cfg es (new_breaker, 0) = Some (b, n) \<longrightarrow> invariant_overlapping cfg b"
    by (auto dest: invariant_overlapping_play)
  with invariant_run [OF invariant_new_breaker, of cfg cs] show ?thesis
    by (simp add: invariant_def invariant_overlapping_def)
qed

theorem invariant_after_every_call_witness:
  "play short_open_config overlapping_probes (new_breaker, 0) = Some (stale_success_breaker, 0)
   \<and> (openedAt stale_success_breaker \<noteq> None) = (state stale_success_breaker = OPEN)
   \<and> halfOpenTrials stale_success_breaker \<le> halfOpenMaxTrials short_open_config
   \<and> length (window stale_success_breaker) \<le> windowSize short_open_config
   \<and> run short_open_config probe_after_trip new_breaker = probed_breaker
   \<and> halfOpenSuccesses probed_breaker \<le> halfOpenTrials probed_breaker
   \<and> halfOpenTrials probed_breaker \<le> halfOpenMaxTrials short_open_config"
  using invariant_after_every_call [of short_open_config probe_after_trip overlapping_probes
      stale_success_breaker 0]
  by (simp add: play_overlapping_probes run_probe_after_trip)

subsection \<open>The totals and reset\<close>

lemma totals_transition:
  "totalSuccess (transition now s b) = totalSuccess b"
  "totalFailure (transition now s b) = totalFailure b"
  by (cases s; simp add: transition_def)+

lemma totals_admit:
  "totalSuccess (snd (admit cfg now b)) = totalSuccess b"
  "totalFailure (snd (admit cfg now b)) = totalFailure b"
  by (simp_all add: admit_def Let_def untouched_by_maybeTransitionFromOpen)

lemma totals_onSuccess:
  "totalSuccess (onSuccess cfg t b) = totalSuccess b + 1"
  "totalFailure (onSuccess cfg t b) = totalFailure b"
  by (simp_all add: onSuccess_def Let_def recordResult_fields totals_transition)

lemma totals_onFailure:
  "totalSuccess (onFailure cfg t b) = totalSuccess b"
  "totalFailure (onFailure cfg t b) = totalFailure b + 1"
  by (simp_all add: onFailure_def Let_def recordResult_fields totals_transition)

lemma totals_execute:
  "(totalSuccess (fst (snd (execute cfg fn (b, w)))), totalFailure (fst (snd (execute cfg fn (b, w)))))
     = (if fst (admit cfg (clock w) b) \<noteq> None then (totalSuccess b, totalFailure b)
        else case fst (fn (clock w)) of
               Inr v \<Rightarrow> (totalSuccess b + 1, totalFailure b)
             | Inl e \<Rightarrow> (totalSuccess b, totalFailure b + 1))"
proof (cases "admit cfg (clock w) b")
  case (Pair r b1)
  then have t: "totalSuccess b1 = totalSuccess b" "totalFailure b1 = totalFailure b"
    using totals_admit [of cfg "clock w" b] by simp_all
  show ?thesis
  proof (cases r)
    case None
    with Pair t show ?thesis
      by (simp add: execute_def settle_def invoke_def totals_onSuccess totals_onFailure
          split: prod.splits sum.splits)
  next
    case (Some e)
    with Pair t show ?thesis by (simp add: execute_def)
  qed
qed

text \<open>
  Claim C9. \<open>reset\<close>, in whatever state, gives the breaker the constructor makes: state
  \<open>CLOSED\<close>, an empty window, no \<open>openedAt\<close>, and every counter zero, both totals
  included. Nothing else writes the totals but the accounting of an outcome: a transition,
  \<open>getMetrics\<close> and the \<open>state\<close> getter keep both, and \<open>execute\<close> keeps both when it rejects,
  adds one to \<open>totalSuccess\<close> when the operation succeeds and one to \<open>totalFailure\<close> when it
  fails.
\<close>

theorem reset_and_totals:
  "reset now b = new_breaker
   \<and> totalSuccess (transition now s b) = totalSuccess b
   \<and> totalFailure (transition now s b) = totalFailure b
   \<and> totalSuccess (snd (getMetrics cfg now b)) = totalSuccess b
   \<and> totalFailure (snd (getMetrics cfg now b)) = totalFailure b
   \<and> totalSuccess (snd (getState cfg now b)) = totalSuccess b
   \<and> totalFailure (snd (getState cfg now b)) = totalFailure b
   \<and> (totalSuccess (fst (snd (execute cfg fn (b, w)))),
       totalFailure (fst (snd (execute cfg fn (b, w)))))
       = (if fst (admit cfg (clock w) b) \<noteq> None then (totalSuccess b, totalFailure b)
          else case fst (fn (clock w)) of
                 Inr v \<Rightarrow> (totalSuccess b + 1, totalFailure b)
               | Inl e \<Rightarrow> (totalSuccess b, totalFailure b + 1))"
proof -
  have r: "reset now b = new_breaker"
    by (simp add: reset_def transition_def new_breaker_def)
  have m: "snd (getMetrics cfg now b) = maybeTransitionFromOpen cfg now b"
    "snd (getState cfg now b) = maybeTransitionFromOpen cfg now b"
    by (simp_all add: getMetrics_def getState_def Let_def)
  from r totals_execute [of cfg fn b w] show ?thesis
    by (simp add: m totals_transition untouched_by_maybeTransitionFromOpen)
qed

text \<open>Resetting an open breaker with a history.\<close>

theorem reset_and_totals_witness:
  "reset 9000 \<lparr> state = OPEN, window = [False, False], consecutiveFailures = 2,
       openedAt = Some 1000, halfOpenTrials = 0, halfOpenSuccesses = 0,
       totalSuccess = 7, totalFailure = 2 \<rparr>
     = \<lparr> state = CLOSED, window = [], consecutiveFailures = 0, openedAt = None,
         halfOpenTrials = 0, halfOpenSuccesses = 0, totalSuccess = 0, totalFailure = 0 \<rparr>"
  using reset_and_totals [of 9000 "\<lparr> state = OPEN, window = [False, False], consecutiveFailures = 2,
       openedAt = Some 1000, halfOpenTrials = 0, halfOpenSuccesses = 0,
       totalSuccess = 7, totalFailure = 2 \<rparr>" CLOSED "default_config ''x''" "\<lambda>t. (Inr (), t)"
       "\<lparr> clock = 0, invoked = [] \<rparr>"]
  by (simp add: new_breaker_def)

subsection \<open>The metrics snapshot\<close>

lemma pow2_pos: "0 < pow2 e"
  by (simp add: pow2_def)

lemma round_ties_even_nonneg: "0 \<le> x \<Longrightarrow> 0 \<le> round_ties_even x"
  by (simp add: round_ties_even_def Let_def)

lemma fl_nonneg: "0 \<le> x \<Longrightarrow> 0 \<le> fl x"
  by (simp add: fl_def Let_def round_ties_even_nonneg pow2_pos less_imp_le)

lemma is_digit_digit_char: "d < 10 \<Longrightarrow> is_digit (digit_char d)"
  unfolding is_digit_def digit_char_def by (rule nth_mem) simp

lemma show_nat_digits: "show_nat n \<noteq> [] \<and> list_all is_digit (show_nat n)"
proof (induction n rule: show_nat.induct)
  case (1 n)
  show ?case
  proof (cases "n < 10")
    case True
    then show ?thesis by (subst (1 2) show_nat.simps) (simp add: is_digit_digit_char)
  next
    case False
    with "1" show ?thesis by (subst (1 2) show_nat.simps) (simp add: is_digit_digit_char)
  qed
qed

lemma one_decimal_percent_toFixed1:
  assumes "0 \<le> x"
  shows "one_decimal_percent (toFixed1 x @ ''%'')"
  using assms show_nat_digits [of "nat \<lfloor>x * 10 + 1 / 2\<rfloor> div 10"]
  by (simp add: one_decimal_percent_def toFixed1_def Let_def is_digit_digit_char)

lemma one_decimal_percent_percent: "one_decimal_percent (percent k n)"
  unfolding percent_def js_mul_def js_div_def
  by (rule one_decimal_percent_toFixed1) (simp add: fl_nonneg)

text \<open>
  Claim C8. \<open>getMetrics\<close> runs the time-driven check first and then reports:
  \<open>failureRate\<close>, the literal \<open>0.0%\<close> when no call has completed and otherwise
  \<open>totalFailure / (totalSuccess + totalFailure)\<close> times 100, printed by \<open>toFixed(1)\<close> with a
  percent sign; \<open>windowFailureRate\<close>, the same over the window, \<open>0.0%\<close> when it is empty;
  \<open>halfOpenTrials\<close>, the successes, a slash and \<open>halfOpenMaxTrials\<close> exactly when the state
  after the check is \<open>HALF_OPEN\<close>, the literal \<open>N/A\<close> otherwise. Both rates always read as
  digits, a point, one digit and a percent sign.
\<close>

theorem metrics_snapshot:
  "state' (fst (getMetrics cfg now b)) = state (maybeTransitionFromOpen cfg now b)
   \<and> snd (getMetrics cfg now b) = maybeTransitionFromOpen cfg now b
   \<and> failureRate (fst (getMetrics cfg now b)) =
       (if totalSuccess b + totalFailure b = 0 then ''0.0%''
        else toFixed1 (js_mul (js_div (of_nat (totalFailure b))
                                      (of_nat (totalSuccess b + totalFailure b))) 100) @ ''%'')
   \<and> windowFailureRate (fst (getMetrics cfg now b)) =
       (if window b = [] then ''0.0%''
        else toFixed1 (js_mul (js_div (of_nat (length (filter (\<lambda>r. \<not> r) (window b))))
                                      (of_nat (length (window b)))) 100) @ ''%'')
   \<and> halfOpenTrials' (fst (getMetrics cfg now b)) =
       (if state (maybeTransitionFromOpen cfg now b) = HALF_OPEN
        then show_nat (halfOpenSuccesses (maybeTransitionFromOpen cfg now b)) @ ''/''
             @ show_nat (halfOpenMaxTrials cfg)
        else ''N/A'')
   \<and> successfulCalls (fst (getMetrics cfg now b)) = totalSuccess b
   \<and> failedCalls (fst (getMetrics cfg now b)) = totalFailure b
   \<and> one_decimal_percent (failureRate (fst (getMetrics cfg now b)))
   \<and> one_decimal_percent (windowFailureRate (fst (getMetrics cfg now b)))"
proof -
  have z: "one_decimal_percent ''0.0%''"
    by (simp add: one_decimal_percent_def is_digit_def)
  have f: "one_decimal_percent (failureRate (fst (getMetrics cfg now b)))"
    by (simp add: getMetrics_def Let_def z one_decimal_percent_percent)
  have w: "one_decimal_percent (windowFailureRate (fst (getMetrics cfg now b)))"
    by (simp add: getMetrics_def Let_def z one_decimal_percent_percent)
  have r: "state' (fst (getMetrics cfg now b)) = state (maybeTransitionFromOpen cfg now b)
   \<and> snd (getMetrics cfg now b) = maybeTransitionFromOpen cfg now b
   \<and> failureRate (fst (getMetrics cfg now b)) =
       (if totalSuccess b + totalFailure b = 0 then ''0.0%''
        else toFixed1 (js_mul (js_div (of_nat (totalFailure b))
                                      (of_nat (totalSuccess b + totalFailure b))) 100) @ ''%'')
   \<and> windowFailureRate (fst (getMetrics cfg now b)) =
       (if window b = [] then ''0.0%''
        else toFixed1 (js_mul (js_div (of_nat (length (filter (\<lambda>r. \<not> r) (window b))))
                                      (of_nat (length (window b)))) 100) @ ''%'')
   \<and> halfOpenTrials' (fst (getMetrics cfg now b)) =
       (if state (maybeTransitionFromOpen cfg now b) = HALF_OPEN
        then show_nat (halfOpenSuccesses (maybeTransitionFromOpen cfg now b)) @ ''/''
             @ show_nat (halfOpenMaxTrials cfg)
        else ''N/A'')
   \<and> successfulCalls (fst (getMetrics cfg now b)) = totalSuccess b
   \<and> failedCalls (fst (getMetrics cfg now b)) = totalFailure b"
    by (simp add: getMetrics_def Let_def percent_def failures_def
        untouched_by_maybeTransitionFromOpen)
  from r f w show ?thesis by simp
qed

text \<open>
  One failure in three calls, one failure in a window of three, one success of three
  probes: \<open>33.3%\<close>, \<open>33.3%\<close> and \<open>1/3\<close>.
\<close>

theorem metrics_snapshot_witness:
  "failureRate (fst (getMetrics contentConfig 50000 probing_breaker)) = ''33.3%''
   \<and> windowFailureRate (fst (getMetrics contentConfig 50000 probing_breaker)) = ''33.3%''
   \<and> halfOpenTrials' (fst (getMetrics contentConfig 50000 probing_breaker)) = ''1/3''
   \<and> state' (fst (getMetrics contentConfig 50000 probing_breaker)) = HALF_OPEN"
proof -
  have p: "toFixed1 (js_mul (js_div 1 3) 100) = ''33.3''" by code_simp
  have s: "show_nat (Suc 0) = ''1''" "show_nat 3 = ''3''" by code_simp+
  have m: "maybeTransitionFromOpen contentConfig 50000 probing_breaker = probing_breaker"
    by (simp add: maybeTransitionFromOpen_def probing_breaker_def)
  have f: "totalSuccess probing_breaker = 2" "totalFailure probing_breaker = 1"
    "window probing_breaker = [True, False, True]" "state probing_breaker = HALF_OPEN"
    "halfOpenSuccesses probing_breaker = 1" "halfOpenMaxTrials contentConfig = 3"
    by (simp_all add: probing_breaker_def contentConfig_def default_config_def)
  from metrics_snapshot [of contentConfig 50000 probing_breaker]
  show ?thesis by (simp add: m f p s)
qed

section \<open>Properties of the recommendation pipeline\<close>



lemma array_join_DEFAULT_PREFERENCES:
  "array_join DEFAULT_PREFERENCES '','' = Inr ''Comedy,Family''"
  by (simp add: DEFAULT_PREFERENCES_def)

subsection \<open>Step 1 falls back to the default preferences\<close>

lemma fetchUserPreferences_failure:
  assumes "execute userProfileConfig (userProfileGet sv userId) (userProfileBreaker a, world a)
             = (Inl err, b, w)"
  shows "fetchUserPreferences sv userId a =
           (((JStr userId, DEFAULT_PREFERENCES), [''user-profile-service'']),
            a\<lparr> userProfileBreaker := b, world := w \<rparr>)"
  using assms by (simp add: fetchUserPreferences_def Let_def)

lemma fetchRecommendations_fallbacks:
  assumes "fetchRecommendations sv up fb1 a1 = ((recs, fb), a2)"
  shows "fb = (if recs = None then fb1 @ [''content-service''] else fb1)"
  using assms
  by (auto simp add: fetchRecommendations_def Let_def split: sum.splits prod.splits)

lemma recommend_cases:
  assumes "fetchUserPreferences sv userId a = ((up, fb1), a1)"
    and "fetchRecommendations sv up fb1 a1 = ((recs, fb), a2)"
  shows "recommend sv userId a =
           (case recs of None \<Rightarrow> trendingFallback sv fb a2
            | Some r \<Rightarrow> (combinedResponse up r fb, a2))"
  using assms by (simp add: recommend_def split: option.splits)

text \<open>
  Claim C7. When the call of the user-profile breaker fails, a rejection included, the
  preferences are \<open>DEFAULT_PREFERENCES\<close>, that is \<open>[Comedy, Family]\<close>, the user id is the one
  received, and \<open>user-profile-service\<close> is the one fallback triggered. When Step 2 then
  yields recommendations, the response is 200 with \<open>userPreferences\<close>, \<open>recommendations\<close>
  and \<open>fallback_triggered_for = user-profile-service\<close>. In general the combined response
  has the field \<open>fallback_triggered_for\<close> exactly when some fallback was triggered.
\<close>

theorem user_profile_fallback:
  assumes "execute userProfileConfig (userProfileGet sv userId) (userProfileBreaker a, world a)
             = (Inl err, b, w)"
    and "fetchRecommendations sv (JStr userId, DEFAULT_PREFERENCES) [''user-profile-service'']
             (a\<lparr> userProfileBreaker := b, world := w \<rparr>) = ((Some recs, fb), a2)"
  shows "fetchUserPreferences sv userId a =
           (((JStr userId, JArr [JStr ''Comedy'', JStr ''Family'']), [''user-profile-service'']),
            a\<lparr> userProfileBreaker := b, world := w \<rparr>)
       \<and> fb = [''user-profile-service'']
       \<and> recommend sv userId a =
           (\<lparr> status = 200,
              body = JObj [(''userPreferences'',
                              JObj [(''userId'', JStr userId),
                                    (''preferences'', JArr [JStr ''Comedy'', JStr ''Family''])]),
                           (''recommendations'', recs),
                           (''fallback_triggered_for'', JStr ''user-profile-service'')] \<rparr>, a2)
       \<and> combinedResponse up r fs =
           \<lparr> status = 200,
             body = JObj ([(''userPreferences'',
                              JObj [(''userId'', fst up), (''preferences'', snd up)]),
                           (''recommendations'', r)]
                          @ (if fs = [] then []
                             else [(''fallback_triggered_for'', JStr (js_join '', '' fs))])) \<rparr>"
proof -
  note A = fetchUserPreferences_failure [OF assms(1)]
  have f: "fb = [''user-profile-service'']"
    using fetchRecommendations_fallbacks [OF assms(2)] by simp
  have r: "recommend sv userId a =
             (combinedResponse (JStr userId, DEFAULT_PREFERENCES) recs fb, a2)"
    using recommend_cases [OF A assms(2)] by simp
  have c: "combinedResponse up r fs =
           \<lparr> status = 200,
             body = JObj ([(''userPreferences'',
                              JObj [(''userId'', fst up), (''preferences'', snd up)]),
                           (''recommendations'', r)]
                          @ (if fs = [] then []
                             else [(''fallback_triggered_for'', JStr (js_join '', '' fs))])) \<rparr>"
    by (simp add: combinedResponse_def)
  from A f r c show ?thesis
    by (simp add: combinedResponse_def DEFAULT_PREFERENCES_def)
qed

text \<open>
  The user-profile service answers 500 to a fresh application and the content service
  is healthy: the movies come back for the default genres, with the fallback named.
\<close>

theorem user_profile_fallback_witness:
  "fst (execute userProfileConfig (userProfileGet profile_down ''u1'')
          (userProfileBreaker fresh_app, world fresh_app))
     = Inl (RequestError ''Request failed with status code 500'')
   \<and> fst (fetchUserPreferences profile_down ''u1'' fresh_app)
     = ((JStr ''u1'', JArr [JStr ''Comedy'', JStr ''Family'']), [''user-profile-service''])
   \<and> fst (recommend profile_down ''u1'' fresh_app)
     = \<lparr> status = 200,
         body = JObj [(''userPreferences'',
                         JObj [(''userId'', JStr ''u1''),
                               (''preferences'', JArr [JStr ''Comedy'', JStr ''Family''])]),
                      (''recommendations'',
                         JArr [JObj [(''movieId'', JNum 102), (''title'', JStr ''The Dark Knight''),
                                     (''genre'', JStr ''Action'')]]),
                      (''fallback_triggered_for'', JStr ''user-profile-service'')] \<rparr>"
proof -
  let ?e = "RequestError ''Request failed with status code 500''"
  let ?b = "new_breaker\<lparr> window := [False], consecutiveFailures := 1, totalFailure := 1 \<rparr>"
  let ?w = "\<lparr> clock = 5, invoked = [''user-profile-service''] \<rparr>"
  let ?a1 = "fresh_app\<lparr> userProfileBreaker := ?b, world := ?w \<rparr>"
  let ?recs = "JArr [JObj [(''movieId'', JNum 102), (''title'', JStr ''The Dark Knight''),
                           (''genre'', JStr ''Action'')]]"
  let ?a2 = "?a1\<lparr> contentBreaker := new_breaker\<lparr> window := [True], totalSuccess := 1 \<rparr>,
                   world := \<lparr> clock = 35,
                              invoked = [''user-profile-service'', ''content-service''] \<rparr> \<rparr>"
  have h1: "execute userProfileConfig (userProfileGet profile_down ''u1'')
              (userProfileBreaker fresh_app, world fresh_app) = (Inl ?e, ?b, ?w)"
    by (simp add: profile_down_def healthy_def failing_def fresh_app_def userProfileConfig_def
        default_config_def new_breaker_def execute_def admit_def settle_def invoke_def
        maybeTransitionFromOpen_def onFailure_def recordResult_def Let_def)
  have h2: "fetchRecommendations profile_down (JStr ''u1'', DEFAULT_PREFERENCES)
              [''user-profile-service''] ?a1 = ((Some ?recs, [''user-profile-service'']), ?a2)"
    by (simp add: fetchRecommendations_def profile_down_def healthy_def movies_body_def
        fresh_app_def contentConfig_def DEFAULT_PREFERENCES_def
        default_config_def new_breaker_def execute_def admit_def settle_def invoke_def
        maybeTransitionFromOpen_def onSuccess_def recordResult_def Let_def)
  from user_profile_fallback [OF h1 h2] h1 show ?thesis by simp
qed

subsection \<open>Which requests are issued\<close>






subsection \<open>The trending fallback\<close>









subsection \<open>A content answer without movies\<close>





end
